theory Spec2Isabelle
  imports Complex_Main "HOL-Library.Word"
begin

section \<open>The dense matrix of \<^verbatim>\<open>include/math/dense_matrix.h\<close>\<close>

text \<open>
  \<^verbatim>\<open>DenseMatrix<T>\<close> keeps its extents \<^verbatim>\<open>_m\<close> and \<^verbatim>\<open>_n\<close> (both
  \<^verbatim>\<open>unsigned int\<close>), a \<^verbatim>\<open>std::vector<T> _val\<close> read in row-major order, and the
  tag \<^verbatim>\<open>_decomposition_type\<close>. The extents and every index are 32-bit words, so the
  products \<^verbatim>\<open>m*n\<close>, \<^verbatim>\<open>i*j\<close> and \<^verbatim>\<open>i*_n + j\<close> wrap as they do in the code.
  The vector is a list; its size is a natural number (a \<^verbatim>\<open>size_t\<close>).
  The scalar type \<^verbatim>\<open>T\<close> is a type variable.
\<close>

type_synonym uint = "32 word"

datatype DecompositionType = LU | CHOLESKY | NONE

record 'a DenseMatrix =
  mat_m :: uint
  mat_n :: uint
  mat_val :: "'a list"
  decomposition_type :: DecompositionType

text \<open>
  What a call can end in besides a value. \<open>AssertionFailure\<close>: an \<^verbatim>\<open>assert\<close> of the
  header does not hold (the asserts are compiled in; the specification calls the one of
  the accessors BoundsError). \<open>UndefinedBehaviour\<close>: \<^verbatim>\<open>_val[k]\<close> with \<open>k\<close> not below the
  size of the vector. \<open>DimensionError\<close>, \<open>SingularMatrixError\<close> and
  \<open>DecompositionStateError\<close> are the specification's names; nothing in the header
  raises them.
\<close>

datatype error = AssertionFailure | UndefinedBehaviour
  | DimensionError | SingularMatrixError | DecompositionStateError

subsection \<open>zero, resize, constructors, assignment, swap\<close>

text \<open>\<^verbatim>\<open>zero()\<close>: the tag becomes \<open>NONE\<close>, \<^verbatim>\<open>std::fill\<close> overwrites every element.\<close>

definition zero_dm :: "'a::zero DenseMatrix \<Rightarrow> 'a DenseMatrix" where
  "zero_dm A = A\<lparr>decomposition_type := NONE, mat_val := map (\<lambda>_. 0) (mat_val A)\<rparr>"

text \<open>
  \<^verbatim>\<open>std::vector<T>::resize(k)\<close>: the first \<open>k\<close> elements stay, new elements are
  value-initialised.
\<close>

definition vector_resize :: "nat \<Rightarrow> 'a::zero list \<Rightarrow> 'a list" where
  "vector_resize k v = take k v @ replicate (k - length v) 0"

text \<open>
  \<^verbatim>\<open>resize(m, n)\<close>: \<^verbatim>\<open>_val.resize(m*n)\<close> with the product taken in
  \<^verbatim>\<open>unsigned int\<close>, then the extents, the tag, and \<^verbatim>\<open>zero()\<close>.
\<close>

definition resize :: "uint \<Rightarrow> uint \<Rightarrow> 'a::zero DenseMatrix \<Rightarrow> 'a DenseMatrix" where
  "resize m n A =
     zero_dm (A\<lparr>mat_val := vector_resize (unat (m * n)) (mat_val A),
                mat_m := m, mat_n := n, decomposition_type := NONE\<rparr>)"

text \<open>
  The constructor \<^verbatim>\<open>DenseMatrix(m, n)\<close>: the base class stores the extents, the tag
  is initialised to \<open>NONE\<close>, the vector starts empty, and the body calls \<^verbatim>\<open>resize\<close>.
\<close>

definition DenseMatrix_ctor :: "uint \<Rightarrow> uint \<Rightarrow> 'a::zero DenseMatrix" where
  "DenseMatrix_ctor m n =
     resize m n \<lparr>mat_m = m, mat_n = n, mat_val = [], decomposition_type = NONE\<rparr>"

text \<open>
  The copy constructor: the base class gets the extents of the other matrix and the body
  copies the vector. The member \<^verbatim>\<open>_decomposition_type\<close> has no initialiser and no
  assignment, so it keeps whatever the storage of the new object held; that prior content
  is the parameter \<open>t0\<close>.
\<close>

definition DenseMatrix_copy_ctor ::
  "DecompositionType \<Rightarrow> 'a DenseMatrix \<Rightarrow> 'a DenseMatrix" where
  "DenseMatrix_copy_ctor t0 other_matrix =
     \<lparr>mat_m = mat_m other_matrix, mat_n = mat_n other_matrix,
      mat_val = mat_val other_matrix, decomposition_type = t0\<rparr>"

text \<open>\<^verbatim>\<open>operator=\<close>: all four members are copied from the other matrix.\<close>

definition assign :: "'a DenseMatrix \<Rightarrow> 'a DenseMatrix \<Rightarrow> 'a DenseMatrix" where
  "assign other_matrix A =
     A\<lparr>mat_m := mat_m other_matrix, mat_n := mat_n other_matrix,
       mat_val := mat_val other_matrix,
       decomposition_type := decomposition_type other_matrix\<rparr>"

text \<open>
  \<^verbatim>\<open>swap\<close> changes both objects; the model returns the pair (this, other) after the
  call.
\<close>

definition swap :: "'a DenseMatrix \<times> 'a DenseMatrix \<Rightarrow> 'a DenseMatrix \<times> 'a DenseMatrix" where
  "swap p =
     (case p of (A, other_matrix) \<Rightarrow>
        (A\<lparr>mat_m := mat_m other_matrix, mat_n := mat_n other_matrix,
           mat_val := mat_val other_matrix,
           decomposition_type := decomposition_type other_matrix\<rparr>,
         other_matrix\<lparr>mat_m := mat_m A, mat_n := mat_n A,
           mat_val := mat_val A,
           decomposition_type := decomposition_type A\<rparr>))"

subsection \<open>Element access\<close>

text \<open>
  The non-const \<^verbatim>\<open>operator()\<close> returns a reference to \<^verbatim>\<open>_val[i*_n + j]\<close> after
  three asserts. The reference is modelled by the offset it points to. The multiplications
  and the addition are \<^verbatim>\<open>unsigned int\<close> operations.
\<close>

definition op_paren_ref :: "'a DenseMatrix \<Rightarrow> uint \<Rightarrow> uint \<Rightarrow> error + nat" where
  "op_paren_ref A i j =
     (if \<not> unat (i * j) < length (mat_val A) then Inl AssertionFailure
      else if \<not> i < mat_m A then Inl AssertionFailure
      else if \<not> j < mat_n A then Inl AssertionFailure
      else if unat (i * mat_n A + j) < length (mat_val A)
        then Inr (unat (i * mat_n A + j))
      else Inl UndefinedBehaviour)"

text \<open>The const \<^verbatim>\<open>operator()\<close> makes the same checks and returns the element.\<close>

definition op_paren :: "'a DenseMatrix \<Rightarrow> uint \<Rightarrow> uint \<Rightarrow> error + 'a" where
  "op_paren A i j =
     (if \<not> unat (i * j) < length (mat_val A) then Inl AssertionFailure
      else if \<not> i < mat_m A then Inl AssertionFailure
      else if \<not> j < mat_n A then Inl AssertionFailure
      else if unat (i * mat_n A + j) < length (mat_val A)
        then Inr (mat_val A ! unat (i * mat_n A + j))
      else Inl UndefinedBehaviour)"

text \<open>An assignment \<^verbatim>\<open>A(i,j) = v\<close> through the returned reference.\<close>

definition op_paren_store :: "'a DenseMatrix \<Rightarrow> uint \<Rightarrow> uint \<Rightarrow> 'a \<Rightarrow> error + 'a DenseMatrix" where
  "op_paren_store A i j v =
     (case op_paren_ref A i j of
        Inl e \<Rightarrow> Inl e
      | Inr k \<Rightarrow> Inr (A\<lparr>mat_val := (mat_val A)[k := v]\<rparr>))"

text \<open>\<^verbatim>\<open>transpose(i, j)\<close> is \<^verbatim>\<open>(*this)(j, i)\<close>.\<close>

definition transpose_dm :: "'a DenseMatrix \<Rightarrow> uint \<Rightarrow> uint \<Rightarrow> error + 'a" where
  "transpose_dm A i j = op_paren A j i"

subsection \<open>scale, add, operator+=\<close>

text \<open>
  The three loops run \<^verbatim>\<open>for (unsigned int i=0; i<_val.size(); i++)\<close>. The counter is
  a 32-bit word compared with a \<^verbatim>\<open>size_t\<close>: on a vector of \<open>2^32\<close> elements or more
  it wraps before it reaches the size and the loop does not end. The loops are therefore
  partial functions; \<open>None\<close> is a call that does not return.
\<close>

partial_function (option) scale_loop :: "'a::times \<Rightarrow> uint \<Rightarrow> 'a list \<Rightarrow> 'a list option" where
  "scale_loop factor i v =
     (if unat i < length v
      then scale_loop factor (i + 1) (v[unat i := v ! unat i * factor])
      else Some v)"

definition scale :: "'a::times \<Rightarrow> 'a DenseMatrix \<Rightarrow> 'a DenseMatrix option" where
  "scale factor A =
     (case scale_loop factor 0 (mat_val A) of
        None \<Rightarrow> None
      | Some v \<Rightarrow> Some (A\<lparr>mat_val := v\<rparr>))"

text \<open>\<^verbatim>\<open>operator*=\<close> calls \<^verbatim>\<open>scale\<close> and returns the matrix.\<close>

definition times_assign :: "'a::times \<Rightarrow> 'a DenseMatrix \<Rightarrow> 'a DenseMatrix option" where
  "times_assign factor A = scale factor A"

text \<open>
  \<^verbatim>\<open>add(factor, mat)\<close> reads \<^verbatim>\<open>mat._val[i]\<close> for every index of the receiver's
  vector, with no look at the extents of either matrix. A read past the end of
  \<^verbatim>\<open>mat._val\<close> is undefined behaviour.
\<close>

partial_function (option) add_loop ::
  "'a::{plus,times} \<Rightarrow> 'a list \<Rightarrow> uint \<Rightarrow> 'a list \<Rightarrow> (error + 'a list) option" where
  "add_loop factor mv i v =
     (if unat i < length v
      then (if unat i < length mv
            then add_loop factor mv (i + 1) (v[unat i := v ! unat i + factor * mv ! unat i])
            else Some (Inl UndefinedBehaviour))
      else Some (Inr v))"

definition add :: "'a::{plus,times} \<Rightarrow> 'a DenseMatrix \<Rightarrow> 'a DenseMatrix \<Rightarrow> (error + 'a DenseMatrix) option" where
  "add factor mat A =
     (case add_loop factor (mat_val mat) 0 (mat_val A) of
        None \<Rightarrow> None
      | Some (Inl e) \<Rightarrow> Some (Inl e)
      | Some (Inr v) \<Rightarrow> Some (Inr (A\<lparr>mat_val := v\<rparr>)))"

text \<open>\<^verbatim>\<open>operator+=\<close> has its own loop, without the factor.\<close>

partial_function (option) plus_assign_loop ::
  "'a::plus list \<Rightarrow> uint \<Rightarrow> 'a list \<Rightarrow> (error + 'a list) option" where
  "plus_assign_loop mv i v =
     (if unat i < length v
      then (if unat i < length mv
            then plus_assign_loop mv (i + 1) (v[unat i := v ! unat i + mv ! unat i])
            else Some (Inl UndefinedBehaviour))
      else Some (Inr v))"

definition plus_assign :: "'a::plus DenseMatrix \<Rightarrow> 'a DenseMatrix \<Rightarrow> (error + 'a DenseMatrix) option" where
  "plus_assign mat A =
     (case plus_assign_loop (mat_val mat) 0 (mat_val A) of
        None \<Rightarrow> None
      | Some (Inl e) \<Rightarrow> Some (Inl e)
      | Some (Inr v) \<Rightarrow> Some (Inr (A\<lparr>mat_val := v\<rparr>)))"

subsection \<open>Counting loops\<close>

text \<open>
  \<^verbatim>\<open>for (unsigned int k=a; k!=b; k++)\<close> with a body that may fail. The counter is a
  word and the test is an inequality, so the loop ends after \<open>unat (b - k)\<close> rounds
  whatever the bounds; the state \<open>s\<close> holds the variables the body assigns.
\<close>

function for_loop :: "uint \<Rightarrow> uint \<Rightarrow> (uint \<Rightarrow> 's \<Rightarrow> error + 's) \<Rightarrow> 's \<Rightarrow> error + 's" where
  "for_loop k b body s =
     (if k \<noteq> b
      then (case body k s of Inl e \<Rightarrow> Inl e | Inr s' \<Rightarrow> for_loop (k + 1) b body s')
      else Inr s)"
  by pat_completeness auto
termination
proof (relation "measure (\<lambda>(k, b, body, s). unat (b - k))")
  fix k b :: uint and body :: "uint \<Rightarrow> 's \<Rightarrow> error + 's" and s x2 :: 's
  assume "k \<noteq> b"
  then have nz: "b - k \<noteq> 0" by simp
  have "b - (k + 1) = (b - k) - 1" by simp
  with measure_unat [OF nz] have "unat (b - (k + 1)) < unat (b - k)"
    by (simp only:)
  then show "((k + 1, b, body, x2), (k, b, body, s)) \<in> measure (\<lambda>(k, b, body, s). unat (b - k))"
    by simp
qed simp

declare for_loop.simps [simp del]

text \<open>The same rounds over an explicit list of counter values (used in the proofs).\<close>

fun for_each :: "'i list \<Rightarrow> ('i \<Rightarrow> 's \<Rightarrow> error + 's) \<Rightarrow> 's \<Rightarrow> error + 's" where
  "for_each [] body s = Inr s"
| "for_each (i # is) body s =
     (case body i s of Inl e \<Rightarrow> Inl e | Inr s' \<Rightarrow> for_each is body s')"

subsection \<open>min, max\<close>

text \<open>
  \<^verbatim>\<open>genius_real\<close> comes from \<^verbatim>\<open>genius_common.h\<close>, which is not part of the
  sources at hand: it is the parameter \<open>genius_real\<close>, a projection of \<^verbatim>\<open>T\<close> to
  the ordered type \<^verbatim>\<open>Real\<close>. Both functions assert \<^verbatim>\<open>_m\<close> and \<^verbatim>\<open>_n\<close>, start
  from the element (0,0) and visit every (i,j) through \<^verbatim>\<open>operator()\<close>.
\<close>

definition min_dm :: "('a \<Rightarrow> 'r::ord) \<Rightarrow> 'a DenseMatrix \<Rightarrow> error + 'r" where
  "min_dm genius_real A =
     (if mat_m A = 0 then Inl AssertionFailure
      else if mat_n A = 0 then Inl AssertionFailure
      else case op_paren A 0 0 of
        Inl e \<Rightarrow> Inl e
      | Inr x \<Rightarrow>
          for_loop 0 (mat_m A)
            (\<lambda>i. for_loop 0 (mat_n A)
               (\<lambda>j my_min. case op_paren A i j of
                   Inl e \<Rightarrow> Inl e
                 | Inr y \<Rightarrow>
                     (let current = genius_real y
                      in Inr (if my_min < current then my_min else current))))
            (genius_real x))"

definition max_dm :: "('a \<Rightarrow> 'r::ord) \<Rightarrow> 'a DenseMatrix \<Rightarrow> error + 'r" where
  "max_dm genius_real A =
     (if mat_m A = 0 then Inl AssertionFailure
      else if mat_n A = 0 then Inl AssertionFailure
      else case op_paren A 0 0 of
        Inl e \<Rightarrow> Inl e
      | Inr x \<Rightarrow>
          for_loop 0 (mat_m A)
            (\<lambda>i. for_loop 0 (mat_n A)
               (\<lambda>j my_max. case op_paren A i j of
                   Inl e \<Rightarrow> Inl e
                 | Inr y \<Rightarrow>
                     (let current = genius_real y
                      in Inr (if my_max > current then my_max else current))))
            (genius_real x))"

subsection \<open>l1\_norm, linfty\_norm\<close>

text \<open>
  The two norms read the matrix through \<^verbatim>\<open>(*this)(i,j)\<close> only. They are written
  over an accessor \<open>el\<close> and the extents, so that they can also be run on the transposed
  view; \<open>l1_norm\<close> and \<open>linfty_norm\<close> are the member functions. \<open>std_abs\<close> is
  \<^verbatim>\<open>std::abs\<close> on \<^verbatim>\<open>T\<close>, with values in \<^verbatim>\<open>Real\<close>; of \<^verbatim>\<open>Real\<close> only
  \<open>0\<close>, \<open>+\<close> and \<open>>\<close> are used, and no law about them.
\<close>

definition l1_norm_on ::
  "('a \<Rightarrow> 'r::{zero,plus,ord}) \<Rightarrow> (uint \<Rightarrow> uint \<Rightarrow> error + 'a) \<Rightarrow> uint \<Rightarrow> uint \<Rightarrow> error + 'r" where
  "l1_norm_on std_abs el m n =
     (if m = 0 then Inl AssertionFailure
      else if n = 0 then Inl AssertionFailure
      else case for_loop 0 m
                  (\<lambda>i columnsum. case el i 0 of
                      Inl e \<Rightarrow> Inl e
                    | Inr y \<Rightarrow> Inr (columnsum + std_abs y)) 0 of
        Inl e \<Rightarrow> Inl e
      | Inr columnsum \<Rightarrow>
          for_loop 1 n
            (\<lambda>j my_max.
               case for_loop 0 m
                      (\<lambda>i columnsum. case el i j of
                          Inl e \<Rightarrow> Inl e
                        | Inr y \<Rightarrow> Inr (columnsum + std_abs y)) 0 of
                 Inl e \<Rightarrow> Inl e
               | Inr columnsum \<Rightarrow> Inr (if my_max > columnsum then my_max else columnsum))
            columnsum)"

definition linfty_norm_on ::
  "('a \<Rightarrow> 'r::{zero,plus,ord}) \<Rightarrow> (uint \<Rightarrow> uint \<Rightarrow> error + 'a) \<Rightarrow> uint \<Rightarrow> uint \<Rightarrow> error + 'r" where
  "linfty_norm_on std_abs el m n =
     (if m = 0 then Inl AssertionFailure
      else if n = 0 then Inl AssertionFailure
      else case for_loop 0 n
                  (\<lambda>j rowsum. case el 0 j of
                      Inl e \<Rightarrow> Inl e
                    | Inr y \<Rightarrow> Inr (rowsum + std_abs y)) 0 of
        Inl e \<Rightarrow> Inl e
      | Inr rowsum \<Rightarrow>
          for_loop 1 m
            (\<lambda>i my_max.
               case for_loop 0 n
                      (\<lambda>j rowsum. case el i j of
                          Inl e \<Rightarrow> Inl e
                        | Inr y \<Rightarrow> Inr (rowsum + std_abs y)) 0 of
                 Inl e \<Rightarrow> Inl e
               | Inr rowsum \<Rightarrow> Inr (if my_max > rowsum then my_max else rowsum))
            rowsum)"

definition l1_norm :: "('a \<Rightarrow> 'r::{zero,plus,ord}) \<Rightarrow> 'a DenseMatrix \<Rightarrow> error + 'r" where
  "l1_norm std_abs A = l1_norm_on std_abs (op_paren A) (mat_m A) (mat_n A)"

definition linfty_norm :: "('a \<Rightarrow> 'r::{zero,plus,ord}) \<Rightarrow> 'a DenseMatrix \<Rightarrow> error + 'r" where
  "linfty_norm std_abs A = linfty_norm_on std_abs (op_paren A) (mat_m A) (mat_n A)"

text \<open>
  The specification speaks of the transpose of a matrix; the header only has the accessor
  \<^verbatim>\<open>transpose(i,j)\<close>. \<open>transposed A\<close> is the matrix of the specification's words: the
  \<open>n\<close> by \<open>m\<close> matrix whose element \<open>k\<close>, in row \<open>k div m\<close> and column \<open>k mod m\<close>,
  is the element of \<open>A\<close> in row \<open>k mod m\<close> and column \<open>k div m\<close>.
\<close>

definition transposed :: "'a DenseMatrix \<Rightarrow> 'a DenseMatrix" where
  "transposed A =
     \<lparr>mat_m = mat_n A, mat_n = mat_m A,
      mat_val = map (\<lambda>k. mat_val A ! ((k mod unat (mat_m A)) * unat (mat_n A) + k div unat (mat_m A)))
                    [0..<unat (mat_n A) * unat (mat_m A)],
      decomposition_type = decomposition_type A\<rparr>"

subsection \<open>LU decomposition and solve\<close>

text \<open>
  Modelled from the spec: \<^verbatim>\<open>lu_solve\<close>, \<^verbatim>\<open>_lu_decompose\<close> and
  \<^verbatim>\<open>_lu_back_substitute\<close> are declared in the header and defined in a file that is
  not part of the sources at hand. \<open>ent A i j\<close> is the element (i,j) of the data model,
  "at offset i*n+j" of the row-major buffer.
\<close>

definition ent :: "'a DenseMatrix \<Rightarrow> nat \<Rightarrow> nat \<Rightarrow> 'a" where
  "ent A i j = mat_val A ! (i * unat (mat_n A) + j)"

text \<open>
  Modelled from the spec: the missing LU code works on the matrix in place; \<open>put_ent\<close>
  overwrites the element (i,j) at that offset.
\<close>

definition put_ent :: "'a DenseMatrix \<Rightarrow> nat \<Rightarrow> nat \<Rightarrow> 'a \<Rightarrow> 'a DenseMatrix" where
  "put_ent A i j x = A\<lparr>mat_val := (mat_val A)[i * unat (mat_n A) + j := x]\<rparr>"

text \<open>
  Modelled from the spec: the missing row exchange of partial pivoting, "selected and swapped
  into position".
\<close>

definition swap_rows :: "nat \<Rightarrow> nat \<Rightarrow> 'a DenseMatrix \<Rightarrow> 'a DenseMatrix" where
  "swap_rows i k A =
     fold (\<lambda>c B. put_ent (put_ent B i c (ent A k c)) k c (ent A i c)) [0..<unat (mat_n A)] A"

text \<open>
  Modelled from the spec: the missing pivot search, "the row with the largest-magnitude pivot
  candidate in the current column (from the current row downward)"; of equal candidates the
  first one.
\<close>

definition pivot_row :: "'a::linordered_field DenseMatrix \<Rightarrow> nat \<Rightarrow> nat" where
  "pivot_row A k =
     fold (\<lambda>r best. if \<bar>ent A best k\<bar> < \<bar>ent A r k\<bar> then r else best) [Suc k..<unat (mat_m A)] k"

text \<open>
  Modelled from the spec: the missing elimination of column \<open>k\<close> from row \<open>r\<close>,
  "reducing A in place to combined unit-lower/upper-triangular factors": the multiplier is
  stored below the diagonal and the rest of the row is reduced.
\<close>

definition eliminate_row :: "nat \<Rightarrow> 'a::linordered_field DenseMatrix \<Rightarrow> nat \<Rightarrow> 'a DenseMatrix" where
  "eliminate_row k A r =
     (let f = ent A r k / ent A k k
      in fold (\<lambda>c B. put_ent B r c (ent B r c - f * ent A k c)) [Suc k..<unat (mat_n A)]
           (put_ent A r k f))"

text \<open>
  Modelled from the spec: one missing elimination step. With \<open>partial_pivot\<close> the pivot
  row is searched and swapped in and the swap is recorded; without it "the natural (no-swap)
  pivot order is used". "If a pivot candidate is (numerically) zero, fail with
  SingularMatrixError"; a candidate is zero when it equals \<open>0\<close>.
\<close>

definition lu_step ::
  "bool \<Rightarrow> nat \<Rightarrow> 'a::linordered_field DenseMatrix \<times> nat list \<Rightarrow> error + 'a DenseMatrix \<times> nat list" where
  "lu_step partial_pivot k s =
     (case s of (A, piv) \<Rightarrow>
        (let p = (if partial_pivot then pivot_row A k else k);
             A1 = (if p = k then A else swap_rows k p A)
         in if ent A1 k k = 0 then Inl SingularMatrixError
            else Inr (fold (\<lambda>r B. eliminate_row k B r) [Suc k..<unat (mat_m A)] A1, piv @ [p])))"

text \<open>
  Modelled from the spec: the missing loop over the elimination steps; a failing step ends
  the call ("there is no recovery within the call").
\<close>

fun lu_steps ::
  "bool \<Rightarrow> nat list \<Rightarrow> 'a::linordered_field DenseMatrix \<times> nat list \<Rightarrow> error + 'a DenseMatrix \<times> nat list" where
  "lu_steps partial_pivot [] s = Inr s"
| "lu_steps partial_pivot (k # ks) s =
     (case lu_step partial_pivot k s of
        Inl e \<Rightarrow> Inl e
      | Inr s' \<Rightarrow> lu_steps partial_pivot ks s')"

text \<open>
  Modelled from the spec: the missing \<^verbatim>\<open>_lu_decompose\<close>, all steps in order, "leaving the
  matrix holding its LU factors (state tag = LU-decomposed)", with the recorded row swaps.
\<close>

definition lu_decompose ::
  "bool \<Rightarrow> 'a::linordered_field DenseMatrix \<Rightarrow> error + 'a DenseMatrix \<times> nat list" where
  "lu_decompose partial_pivot A =
     (case lu_steps partial_pivot [0..<unat (mat_m A)] (A, []) of
        Inl e \<Rightarrow> Inl e
      | Inr (A', piv) \<Rightarrow> Inr (A'\<lparr>decomposition_type := LU\<rparr>, piv))"

text \<open>
  Modelled from the spec: the missing \<^verbatim>\<open>_lu_back_substitute\<close>: "applying the same row
  permutation to b", then forward substitution with the unit lower factor, then backward
  substitution with the upper factor.
\<close>

definition lu_back_substitute ::
  "'a::linordered_field DenseMatrix \<Rightarrow> nat list \<Rightarrow> 'a list \<Rightarrow> 'a list" where
  "lu_back_substitute A piv b =
     (let n = unat (mat_m A);
          b1 = fold (\<lambda>k v. v[k := v ! (piv ! k), piv ! k := v ! k]) [0..<n] b;
          y = fold (\<lambda>i y. y[i := b1 ! i - sum_list (map (\<lambda>j. ent A i j * y ! j) [0..<i])])
                [0..<n] b1
      in fold (\<lambda>i x. x[i := (y ! i - sum_list (map (\<lambda>j. ent A i j * x ! j) [Suc i..<n]))
                            / ent A i i])
           (rev [0..<n]) y)"

text \<open>
  Modelled from the spec: the missing \<^verbatim>\<open>lu_solve(b, x, partial_pivot)\<close> "for a square
  matrix A"; the result is the matrix after the call and the solution \<open>x\<close>. A shape that
  does not fit is a DimensionError, a matrix tagged with the other decomposition kind a
  DecompositionStateError, and "each lu_solve call" performs "its own decomposition".
\<close>

definition lu_solve ::
  "'a::linordered_field list \<Rightarrow> bool \<Rightarrow> 'a DenseMatrix \<Rightarrow> error + 'a DenseMatrix \<times> 'a list" where
  "lu_solve b partial_pivot A =
     (if mat_m A \<noteq> mat_n A \<or> length b \<noteq> unat (mat_m A) then Inl DimensionError
      else if decomposition_type A = CHOLESKY then Inl DecompositionStateError
      else case lu_decompose partial_pivot A of
        Inl e \<Rightarrow> Inl e
      | Inr (A', piv) \<Rightarrow> Inr (A', lu_back_substitute A' piv b))"


section \<open>Properties\<close>

subsection \<open>Loops\<close>

lemma for_loop_for_each:
  "k \<le> b \<Longrightarrow> for_loop k b body s = for_each (map word_of_nat [unat k..<unat b]) body s"
proof (induction k b body s rule: for_loop.induct)
  case (1 k b body s)
  show ?case
  proof (cases "k = b")
    case True
    then show ?thesis by (simp add: for_loop.simps)
  next
    case False
    with "1.prems" have lt: "k < b" by simp
    then have un: "unat k < unat b" by (simp add: word_less_nat_alt)
    have s: "unat (k + 1) = Suc (unat k)"
      using un unsigned_less [of b, where 'a = nat] by (simp add: unat_word_ariths)
    have le: "k + 1 \<le> b" using lt by (simp add: inc_le)
    have "[unat k..<unat b] = unat k # [unat (k + 1)..<unat b]"
      using un s by (simp add: upt_conv_Cons)
    then show ?thesis
      using False "1.IH" le
      by (subst for_loop.simps) (simp split: sum.splits)
  qed
qed

lemma for_each_cong:
  "(\<And>i s. i \<in> set is \<Longrightarrow> f i s = g i s) \<Longrightarrow> for_each is f s = for_each is g s"
  by (induction "is" arbitrary: s) (auto split: sum.splits)

lemma for_each_total:
  "(\<And>i s. i \<in> set is \<Longrightarrow> body i s = Inr (g i s)) \<Longrightarrow> for_each is body s = Inr (fold g is s)"
  by (induction "is" arbitrary: s) auto

lemma counter_values:
  fixes k b :: uint
  shows "set (map word_of_nat [unat k..<unat b]) = {i. k \<le> i \<and> i < b}"
proof (intro set_eqI iffI)
  fix i :: uint
  assume "i \<in> set (map word_of_nat [unat k..<unat b])"
  then obtain p where p: "unat k \<le> p" "p < unat b" "i = word_of_nat p" by auto
  then have "unat i = p" by (simp add: le_unat_uoi [of p b])
  with p show "i \<in> {i. k \<le> i \<and> i < b}"
    by (simp add: word_le_nat_alt word_less_nat_alt)
next
  fix i :: uint
  assume "i \<in> {i. k \<le> i \<and> i < b}"
  then have "unat k \<le> unat i" "unat i < unat b"
    by (simp_all add: word_le_nat_alt word_less_nat_alt)
  moreover have "i = word_of_nat (unat i)" by simp
  ultimately show "i \<in> set (map word_of_nat [unat k..<unat b])"
    by (metis (no_types, lifting) atLeastLessThan_iff image_eqI set_map set_upt)
qed

lemma fold_min_Min:
  fixes a :: "'r::linorder"
  shows "fold (\<lambda>x acc. if acc < x then acc else x) xs a = Min (insert a (set xs))"
proof (induction xs arbitrary: a)
  case Nil
  then show ?case by simp
next
  case (Cons x xs)
  have "(if a < x then a else x) = min a x" by (auto simp: min_def)
  moreover have "Min (insert (min a x) (set xs)) = Min (insert a (insert x (set xs)))"
    by (cases "set xs = {}") (simp_all add: Min_insert min.assoc)
  ultimately show ?case using Cons.IH by simp
qed

lemma fold_max_Max:
  fixes a :: "'r::linorder"
  shows "fold (\<lambda>x acc. if acc > x then acc else x) xs a = Max (insert a (set xs))"
proof (induction xs arbitrary: a)
  case Nil
  then show ?case by simp
next
  case (Cons x xs)
  have "(if a > x then a else x) = max a x" by (auto simp: max_def)
  moreover have "Max (insert (max a x) (set xs)) = Max (insert a (insert x (set xs)))"
    by (cases "set xs = {}") (simp_all add: Max_insert max.assoc)
  ultimately show ?case using Cons.IH by simp
qed


subsection \<open>Offsets and elementwise loops\<close>

lemma plus_assign_loop_add_loop:
  "plus_assign_loop mv i v = Some y \<Longrightarrow> add_loop (1::'a::{plus,monoid_mult}) mv i v = Some y"
proof (rule plus_assign_loop.raw_induct
    [where P = "\<lambda>mv i v y. add_loop 1 mv i v = Some y"])
  fix f mv i and v :: "'a list" and y
  assume "\<And>mv i v y. f mv i v = Some y \<Longrightarrow> add_loop 1 mv i v = Some y"
    and "(if unat i < length v
          then if unat i < length mv
               then f mv (i + 1) (v[unat i := v ! unat i + mv ! unat i])
               else Some (Inl UndefinedBehaviour)
          else Some (Inr v)) = Some y"
  then show "add_loop 1 mv i v = Some y"
    by (subst add_loop.simps) (auto split: if_splits)
qed

lemma add_loop_plus_assign_loop:
  "add_loop (1::'a::{plus,monoid_mult}) mv i v = Some y \<Longrightarrow> plus_assign_loop mv i v = Some y"
proof (rule add_loop.raw_induct
    [where P = "\<lambda>factor mv i v y. factor = 1 \<longrightarrow> plus_assign_loop mv i v = Some y",
     THEN mp])
  fix f and factor :: 'a and mv i and v :: "'a list" and y
  assume "\<And>factor mv i v y. f factor mv i v = Some y \<Longrightarrow>
            factor = 1 \<longrightarrow> plus_assign_loop mv i v = Some y"
    and "(if unat i < length v
          then if unat i < length mv
               then f factor mv (i + 1) (v[unat i := v ! unat i + factor * mv ! unat i])
               else Some (Inl UndefinedBehaviour)
          else Some (Inr v)) = Some y"
  then show "factor = 1 \<longrightarrow> plus_assign_loop mv i v = Some y"
    by (subst plus_assign_loop.simps) (auto split: if_splits)
qed simp_all

lemma plus_assign_loop_is_add_loop:
  "plus_assign_loop mv i v = add_loop (1::'a::{plus,monoid_mult}) mv i v"
proof (cases "plus_assign_loop mv i v")
  case None
  then show ?thesis
    using add_loop_plus_assign_loop [of mv i v] by (cases "add_loop 1 mv i v") simp_all
next
  case (Some y)
  then show ?thesis by (simp add: plus_assign_loop_add_loop)
qed


lemma offset_in_range:
  fixes i j m n :: uint
  assumes "i < m" "j < n"
  shows "unat (i * n + j) < unat m * unat n"
proof -
  from assms have i: "unat i < unat m" and j: "unat j < unat n"
    by (simp_all add: word_less_nat_alt)
  have "unat (i * n + j) \<le> unat i * unat n + unat j"
    by (simp add: unat_word_ariths)
  also have "\<dots> < Suc (unat i) * unat n" using j by simp
  also have "\<dots> \<le> unat m * unat n" using i by (intro mult_le_mono1) simp
  finally show ?thesis .
qed

lemma offset_exact:
  fixes i j m n :: uint
  assumes "i < m" "j < n" "unat m * unat n < 2 ^ 32"
  shows "unat (i * n + j) = unat i * unat n + unat j"
proof -
  from assms have i: "unat i < unat m" and j: "unat j < unat n"
    by (simp_all add: word_less_nat_alt)
  have "unat i * unat n + unat j < Suc (unat i) * unat n" using j by simp
  also have "\<dots> \<le> unat m * unat n" using i by (intro mult_le_mono1) simp
  finally have "unat i * unat n + unat j < 2 ^ 32" using assms(3) by simp
  then show ?thesis
    by (simp add: unat_word_ariths mod_add_left_eq)
qed

lemma assert_product_in_range:
  fixes i j m n :: uint
  assumes "i < m" "j < n"
  shows "unat (i * j) < unat m * unat n"
proof -
  from assms have i: "unat i < unat m" and j: "unat j < unat n"
    by (simp_all add: word_less_nat_alt)
  have "unat (i * j) \<le> unat i * unat j"
    by (simp add: unat_word_ariths)
  also have "\<dots> < unat m * unat n" using i j by (rule mult_strict_mono') simp_all
  finally show ?thesis .
qed

lemma op_paren_in_range:
  assumes "length (mat_val A) = unat (mat_m A) * unat (mat_n A)" "i < mat_m A" "j < mat_n A"
  shows "op_paren A i j = Inr (mat_val A ! unat (i * mat_n A + j))"
  using assms offset_in_range [of i "mat_m A" j "mat_n A"]
    assert_product_in_range [of i "mat_m A" j "mat_n A"]
  by (simp add: op_paren_def)

lemma resize_buffer:
  "mat_val (resize m n A) = replicate (unat (m * n)) 0"
  by (simp add: resize_def zero_dm_def vector_resize_def map_replicate_const)

lemma resize_buffer_small:
  "length (mat_val (resize m n A)) < 2 ^ 32"
  using unsigned_less [of "m * n", where 'a = nat] by (simp add: resize_buffer)

lemma resize_buffer_exact:
  fixes m n :: uint
  assumes "unat m * unat n < 2 ^ 32"
  shows "length (mat_val (resize m n A)) = unat m * unat n"
  using assms by (simp add: resize_buffer unat_word_ariths)

lemma op_paren_resize:
  fixes m n :: uint
  assumes "unat m * unat n < 2 ^ 32" "i < m" "j < n"
  shows "op_paren (resize m n A) i j = Inr 0"
proof -
  have ext: "mat_m (resize m n A) = m" "mat_n (resize m n A) = n"
    by (simp_all add: resize_def zero_dm_def)
  have "length (mat_val (resize m n A)) = unat (mat_m (resize m n A)) * unat (mat_n (resize m n A))"
    using assms(1) by (simp add: ext resize_buffer_exact)
  then have "op_paren (resize m n A) i j
      = Inr (mat_val (resize m n A) ! unat (i * mat_n (resize m n A) + j))"
    by (rule op_paren_in_range) (simp_all add: ext assms)
  moreover have "unat (i * n + j) < unat (m * n)"
    using offset_in_range [OF assms(2,3)] assms(1) by (simp add: unat_word_ariths)
  ultimately show ?thesis
    by (simp add: ext resize_buffer)
qed

lemma unat_succ_lt: "unat (i::uint) < k \<Longrightarrow> k < 2 ^ 32 \<Longrightarrow> unat (i + 1) = Suc (unat i)"
  by (simp add: unat_word_ariths)

lemma scale_loop_from:
  "length v < 2 ^ 32 \<Longrightarrow> unat i \<le> length v \<Longrightarrow>
   scale_loop factor i v = Some (take (unat i) v @ map (\<lambda>x. x * factor) (drop (unat i) v))"
proof (induction "length v - unat i" arbitrary: i v)
  case 0
  then show ?case by (subst scale_loop.simps) simp
next
  case (Suc d)
  from Suc.hyps(2) have lt: "unat i < length v" by simp
  from lt Suc.prems(1) have s: "unat (i + 1) = Suc (unat i)" by (rule unat_succ_lt)
  let ?v = "v[unat i := v ! unat i * factor]"
  have "scale_loop factor (i + 1) ?v =
        Some (take (unat (i + 1)) ?v @ map (\<lambda>x. x * factor) (drop (unat (i + 1)) ?v))"
    using Suc.hyps(2) Suc.prems lt s by (intro Suc.hyps(1)) simp_all
  also have "take (unat (i + 1)) ?v = take (unat i) v @ [v ! unat i * factor]"
    using lt s by (simp add: take_Suc_conv_app_nth)
  also have "drop (unat (i + 1)) ?v = drop (Suc (unat i)) v"
    using s by simp
  finally show ?case
    using lt by (subst scale_loop.simps) (simp add: Cons_nth_drop_Suc [symmetric])
qed

lemma scale_returns:
  "length (mat_val A) < 2 ^ 32 \<Longrightarrow>
   scale factor A = Some (A\<lparr>mat_val := map (\<lambda>x. x * factor) (mat_val A)\<rparr>)"
  using scale_loop_from [of "mat_val A" 0 factor] by (simp add: scale_def)

lemma add_loop_from:
  "length v < 2 ^ 32 \<Longrightarrow> unat i \<le> length v \<Longrightarrow> length v \<le> length mv \<Longrightarrow>
   add_loop factor mv i v =
     Some (Inr (take (unat i) v @
                map2 (\<lambda>a b. a + factor * b) (drop (unat i) v) (drop (unat i) mv)))"
proof (induction "length v - unat i" arbitrary: i v)
  case 0
  then show ?case by (subst add_loop.simps) simp
next
  case (Suc d)
  from Suc.hyps(2) have lt: "unat i < length v" by simp
  from lt Suc.prems(1) have s: "unat (i + 1) = Suc (unat i)" by (rule unat_succ_lt)
  from lt Suc.prems have ltm: "unat i < length mv" by simp
  let ?f = "\<lambda>a b. a + factor * b"
  let ?v = "v[unat i := v ! unat i + factor * mv ! unat i]"
  have "add_loop factor mv (i + 1) ?v =
        Some (Inr (take (unat (i + 1)) ?v @
                   map2 ?f (drop (unat (i + 1)) ?v) (drop (unat (i + 1)) mv)))"
    using Suc.hyps(2) Suc.prems lt s by (intro Suc.hyps(1)) simp_all
  also have "take (unat (i + 1)) ?v = take (unat i) v @ [?f (v ! unat i) (mv ! unat i)]"
    using lt s by (simp add: take_Suc_conv_app_nth)
  also have "drop (unat (i + 1)) ?v = drop (Suc (unat i)) v"
    using s by simp
  finally show ?case
    using lt ltm s
    by (subst add_loop.simps) (simp add: Cons_nth_drop_Suc [symmetric])
qed

lemma add_loop_short:
  "length v < 2 ^ 32 \<Longrightarrow> unat i \<le> length mv \<Longrightarrow> length mv < length v \<Longrightarrow>
   add_loop factor mv i v = Some (Inl UndefinedBehaviour)"
proof (induction "length mv - unat i" arbitrary: i v)
  case 0
  then show ?case by (subst add_loop.simps) simp
next
  case (Suc d)
  from Suc.hyps(2) have ltm: "unat i < length mv" by simp
  with Suc.prems have lt: "unat i < length v" by simp
  from lt Suc.prems(1) have s: "unat (i + 1) = Suc (unat i)" by (rule unat_succ_lt)
  let ?v = "v[unat i := v ! unat i + factor * mv ! unat i]"
  have "add_loop factor mv (i + 1) ?v = Some (Inl UndefinedBehaviour)"
    using Suc.hyps(2) Suc.prems ltm s by (intro Suc.hyps(1)) simp_all
  then show ?case
    using lt ltm by (subst add_loop.simps) simp
qed

lemma add_returns:
  "length (mat_val A) < 2 ^ 32 \<Longrightarrow> length (mat_val A) \<le> length (mat_val B) \<Longrightarrow>
   add factor B A =
     Some (Inr (A\<lparr>mat_val := map2 (\<lambda>a b. a + factor * b) (mat_val A) (mat_val B)\<rparr>))"
  using add_loop_from [of "mat_val A" 0 "mat_val B" factor] by (simp add: add_def)

lemma add_reads_past_end:
  "length (mat_val A) < 2 ^ 32 \<Longrightarrow> length (mat_val B) < length (mat_val A) \<Longrightarrow>
   add factor B A = Some (Inl UndefinedBehaviour)"
  using add_loop_short [of "mat_val A" 0 "mat_val B" factor] by (simp add: add_def)

lemma plus_assign_is_add:
  "plus_assign B A = add (1::'a::{plus,monoid_mult}) B A"
  by (simp add: plus_assign_def add_def plus_assign_loop_is_add_loop)


subsection \<open>The claims about storage and elementwise algebra\<close>

text \<open>
  C1 fails as stated: a 1 by 1 matrix tagged \<open>LU\<close> is still tagged \<open>LU\<close> after
  \<^verbatim>\<open>scale(2)\<close>, not \<open>NONE\<close>.
\<close>

theorem C1_scale_counterexample:
  "map_option decomposition_type
     (scale (2::real) \<lparr>mat_m = 1, mat_n = 1, mat_val = [3], decomposition_type = LU\<rparr>) = Some LU
   \<and> LU \<noteq> NONE"
  by (simp add: scale_returns)

text \<open>
  C1 (as the code has it). \<^verbatim>\<open>zero\<close> and \<^verbatim>\<open>resize\<close> set the tag to \<open>NONE\<close>, and
  \<^verbatim>\<open>operator=\<close> gives the receiver the tag of the other matrix, for all matrices.
  \<^verbatim>\<open>scale\<close>, \<^verbatim>\<open>operator*=\<close>, \<^verbatim>\<open>add\<close> and \<^verbatim>\<open>operator+=\<close> never write the tag:
  they return the receiver with the tag it had before. The hypotheses of the last two
  conjuncts are what makes these loops return a matrix: the vector has fewer than \<open>2^32\<close>
  elements and, for the two additions, the other vector is at least as long.
\<close>

theorem C1_tag_after_mutation:
  fixes A B :: "'a::{zero,plus,monoid_mult} DenseMatrix"
  shows "decomposition_type (zero_dm A) = NONE
    \<and> decomposition_type (resize m n A) = NONE
    \<and> decomposition_type (assign B A) = decomposition_type B
    \<and> (length (mat_val A) < 2 ^ 32 \<longrightarrow>
          map_option decomposition_type (scale factor A) = Some (decomposition_type A)
        \<and> map_option decomposition_type (times_assign factor A) = Some (decomposition_type A))
    \<and> (length (mat_val A) < 2 ^ 32 \<and> length (mat_val A) \<le> length (mat_val B) \<longrightarrow>
          map_option (map_sum id decomposition_type) (add factor B A)
            = Some (Inr (decomposition_type A))
        \<and> map_option (map_sum id decomposition_type) (plus_assign B A)
            = Some (Inr (decomposition_type A)))"
  by (simp add: zero_dm_def resize_def scale_returns times_assign_def add_returns
      plus_assign_is_add assign_def)

theorem C1_tag_after_mutation_witness:
  "length (mat_val \<lparr>mat_m = 1, mat_n = 1, mat_val = [3::real], decomposition_type = LU\<rparr>) < 2 ^ 32
   \<and> length (mat_val \<lparr>mat_m = 1, mat_n = 1, mat_val = [3::real], decomposition_type = LU\<rparr>)
       \<le> length (mat_val \<lparr>mat_m = 1, mat_n = 1, mat_val = [4::real], decomposition_type = CHOLESKY\<rparr>)
   \<and> map_option decomposition_type
        (scale 2 \<lparr>mat_m = 1, mat_n = 1, mat_val = [3::real], decomposition_type = LU\<rparr>) = Some LU
   \<and> map_option (map_sum id decomposition_type)
        (add 2 \<lparr>mat_m = 1, mat_n = 1, mat_val = [4::real], decomposition_type = CHOLESKY\<rparr>
               \<lparr>mat_m = 1, mat_n = 1, mat_val = [3::real], decomposition_type = LU\<rparr>) = Some (Inr LU)
   \<and> decomposition_type
        (assign \<lparr>mat_m = 1, mat_n = 1, mat_val = [4::real], decomposition_type = CHOLESKY\<rparr>
                \<lparr>mat_m = 1, mat_n = 1, mat_val = [3::real], decomposition_type = LU\<rparr>) = CHOLESKY"
  using C1_tag_after_mutation
    [where A = "\<lparr>mat_m = 1, mat_n = 1, mat_val = [3::real], decomposition_type = LU\<rparr>"
       and B = "\<lparr>mat_m = 1, mat_n = 1, mat_val = [4::real], decomposition_type = CHOLESKY\<rparr>"
       and factor = 2]
  by simp

text \<open>
  C2 fails as stated: the receiver is 1 by 2, the other matrix 2 by 1, and \<^verbatim>\<open>add\<close>
  returns the sum instead of failing with a dimension error.
\<close>

theorem C2_add_counterexample:
  "mat_m \<lparr>mat_m = 2, mat_n = 1, mat_val = [10, 20::real], decomposition_type = NONE\<rparr>
     \<noteq> mat_m \<lparr>mat_m = 1, mat_n = 2, mat_val = [1, 2::real], decomposition_type = NONE\<rparr>
   \<and> add 1 \<lparr>mat_m = 2, mat_n = 1, mat_val = [10, 20::real], decomposition_type = NONE\<rparr>
            \<lparr>mat_m = 1, mat_n = 2, mat_val = [1, 2::real], decomposition_type = NONE\<rparr>
       = Some (Inr \<lparr>mat_m = 1, mat_n = 2, mat_val = [11, 22::real], decomposition_type = NONE\<rparr>)"
  by (simp add: add_returns)

text \<open>
  C2 (as the code has it). \<^verbatim>\<open>add(factor, mat)\<close> never compares extents. On a receiver
  whose vector has fewer than \<open>2^32\<close> elements it sets every element \<open>k\<close> to
  \<open>this[k] + factor * mat[k]\<close> and leaves extents and tag alone whenever the vector of
  \<open>mat\<close> is at least as long as its own (as it is when the extents agree and both vectors
  hold m times n elements); when the vector of \<open>mat\<close> is shorter it reads past its end.
  No case yields \<open>DimensionError\<close>.
\<close>

theorem C2_add_elementwise:
  assumes "length (mat_val A) < 2 ^ 32"
  shows "add factor B A =
     (if length (mat_val A) \<le> length (mat_val B)
      then Some (Inr (A\<lparr>mat_val := map2 (\<lambda>a b. a + factor * b) (mat_val A) (mat_val B)\<rparr>))
      else Some (Inl UndefinedBehaviour))"
  using assms by (simp add: add_returns add_reads_past_end)

theorem C2_add_elementwise_witness:
  "length (mat_val \<lparr>mat_m = 1, mat_n = 2, mat_val = [1, 2::real], decomposition_type = LU\<rparr>) < 2 ^ 32
   \<and> add 3 \<lparr>mat_m = 1, mat_n = 2, mat_val = [10, 20::real], decomposition_type = NONE\<rparr>
            \<lparr>mat_m = 1, mat_n = 2, mat_val = [1, 2::real], decomposition_type = LU\<rparr>
       = Some (Inr \<lparr>mat_m = 1, mat_n = 2, mat_val = [31, 62::real], decomposition_type = LU\<rparr>)"
  using C2_add_elementwise
    [of "\<lparr>mat_m = 1, mat_n = 2, mat_val = [1, 2::real], decomposition_type = LU\<rparr>" 3
        "\<lparr>mat_m = 1, mat_n = 2, mat_val = [10, 20::real], decomposition_type = NONE\<rparr>"]
  by simp

text \<open>
  What \<^verbatim>\<open>resize(m, n)\<close> does for all arguments, whatever the matrix held before: the
  row count is \<open>m\<close>, the column count is \<open>n\<close>, the tag is \<open>NONE\<close> and the vector
  consists of zeros. The vector has \<open>m * n\<close> elements with the product taken in
  \<^verbatim>\<open>unsigned int\<close>; when the product of the two numbers is below \<open>2^32\<close>, every
  \<open>(i,j)\<close> with \<open>i < m\<close> and \<open>j < n\<close> reads \<open>0\<close>.
\<close>

lemma resize_result:
  "resize m n A =
     \<lparr>mat_m = m, mat_n = n, mat_val = replicate (unat (m * n)) 0, decomposition_type = NONE\<rparr>
   \<and> (unat m * unat n < 2 ^ 32 \<and> i < m \<and> j < n \<longrightarrow> op_paren (resize m n A) i j = Inr 0)"
  using op_paren_resize [of m n i j A]
  by (cases A) (simp add: resize_def zero_dm_def vector_resize_def map_replicate_const)

lemma resize_result_example:
  "unat (2::uint) * unat (3::uint) < 2 ^ 32 \<and> (1::uint) < 2 \<and> (2::uint) < 3
   \<and> resize 2 3 \<lparr>mat_m = 1, mat_n = 1, mat_val = [7::real], decomposition_type = LU\<rparr>
       = \<lparr>mat_m = 2, mat_n = 3, mat_val = replicate 6 0, decomposition_type = NONE\<rparr>
   \<and> op_paren (resize 2 3 \<lparr>mat_m = 1, mat_n = 1, mat_val = [7::real], decomposition_type = LU\<rparr>) 1 2
       = Inr 0"
proof -
  let ?A = "\<lparr>mat_m = 1, mat_n = 1, mat_val = [7::real], decomposition_type = LU\<rparr>"
  have h: "unat (2::uint) * unat (3::uint) < 2 ^ 32 \<and> (1::uint) < 2 \<and> (2::uint) < 3"
    by simp
  with resize_result [of 2 3 ?A 1 2]
  have "resize 2 3 ?A
          = \<lparr>mat_m = 2, mat_n = 3, mat_val = replicate (unat (2 * 3 :: uint)) 0,
             decomposition_type = NONE\<rparr>"
    and "op_paren (resize 2 3 ?A) 1 2 = Inr 0"
    by blast+
  with h show ?thesis
    by simp
qed

text \<open>
  C4 does not hold of the code for every \<open>m\<close> and \<open>n\<close>. \<^verbatim>\<open>resize(2147483649, 2)\<close> on
  an empty matrix stores the extents 2147483649 and 2, but \<^verbatim>\<open>m*n\<close> wraps to 2 and
  the vector gets two elements. The element (1,1) is in range and passes the three asserts,
  but its offset 3 is past the end of the vector: reading it is undefined behaviour, not
  \<open>0\<close>.
\<close>

theorem C4_resize_overflow:
  "mat_m (resize 2147483649 2 \<lparr>mat_m = 0, mat_n = 0, mat_val = [] :: real list,
                                 decomposition_type = NONE\<rparr>) = 2147483649
   \<and> mat_n (resize 2147483649 2 \<lparr>mat_m = 0, mat_n = 0, mat_val = [] :: real list,
                                   decomposition_type = NONE\<rparr>) = 2
   \<and> mat_val (resize 2147483649 2 \<lparr>mat_m = 0, mat_n = 0, mat_val = [] :: real list,
                                     decomposition_type = NONE\<rparr>) = [0, 0]
   \<and> (1::uint) < 2147483649 \<and> (1::uint) < 2
   \<and> op_paren (resize 2147483649 2 \<lparr>mat_m = 0, mat_n = 0, mat_val = [] :: real list,
                                      decomposition_type = NONE\<rparr>) 1 1
       = Inl UndefinedBehaviour"
proof -
  let ?A = "\<lparr>mat_m = 0, mat_n = 0, mat_val = [] :: real list, decomposition_type = NONE\<rparr>"
  have two: "replicate 2 (0::real) = [0, 0]"
    by (simp add: numeral_2_eq_2)
  have "mat_val (resize 2147483649 2 ?A) = replicate 2 0"
    by (simp add: resize_def zero_dm_def vector_resize_def)
  with two have buf: "mat_val (resize 2147483649 2 ?A) = [0, 0]"
    by (simp only:)
  have ext: "mat_m (resize 2147483649 2 ?A) = 2147483649" "mat_n (resize 2147483649 2 ?A) = 2"
    by (simp_all add: resize_def zero_dm_def)
  have "op_paren (resize 2147483649 2 ?A) 1 1 = Inl UndefinedBehaviour"
    by (simp add: op_paren_def buf ext)
  with buf ext show ?thesis
    by simp
qed

text \<open>
  C5. In a matrix whose vector has m times n elements, \<^verbatim>\<open>operator()\<close> at \<open>i < m\<close>,
  \<open>j < n\<close> passes its three asserts and reads, refers to and writes the element at offset
  \<^verbatim>\<open>i*_n + j\<close>, which is below m times n; the offset is the \<^verbatim>\<open>unsigned int\<close> value
  of that expression, equal to the product and sum of natural numbers whenever m times n is
  below \<open>2^32\<close>. At an \<open>i\<close> or \<open>j\<close> out of range an assert fails.
\<close>

theorem C5_element_access:
  assumes "length (mat_val A) = unat (mat_m A) * unat (mat_n A)"
  shows "(i < mat_m A \<and> j < mat_n A \<longrightarrow>
            unat (i * mat_n A + j) < unat (mat_m A) * unat (mat_n A)
          \<and> op_paren A i j = Inr (mat_val A ! unat (i * mat_n A + j))
          \<and> op_paren_ref A i j = Inr (unat (i * mat_n A + j))
          \<and> op_paren_store A i j v = Inr (A\<lparr>mat_val := (mat_val A)[unat (i * mat_n A + j) := v]\<rparr>)
          \<and> (unat (mat_m A) * unat (mat_n A) < 2 ^ 32 \<longrightarrow>
               unat (i * mat_n A + j) = unat i * unat (mat_n A) + unat j))
       \<and> (\<not> (i < mat_m A \<and> j < mat_n A) \<longrightarrow>
            op_paren A i j = Inl AssertionFailure
          \<and> op_paren_ref A i j = Inl AssertionFailure
          \<and> op_paren_store A i j v = Inl AssertionFailure)"
  using assms offset_in_range [of i "mat_m A" j "mat_n A"]
    assert_product_in_range [of i "mat_m A" j "mat_n A"]
    offset_exact [of i "mat_m A" j "mat_n A"]
  by (auto simp add: op_paren_def op_paren_ref_def op_paren_store_def)

theorem C5_element_access_witness:
  "length (mat_val \<lparr>mat_m = 2, mat_n = 3, mat_val = [1, 2, 3, 4, 5, 6::real], decomposition_type = NONE\<rparr>)
     = unat (2::uint) * unat (3::uint)
   \<and> (1::uint) < 2 \<and> (2::uint) < 3
   \<and> op_paren \<lparr>mat_m = 2, mat_n = 3, mat_val = [1, 2, 3, 4, 5, 6::real], decomposition_type = NONE\<rparr> 1 2
       = Inr 6
   \<and> op_paren \<lparr>mat_m = 2, mat_n = 3, mat_val = [1, 2, 3, 4, 5, 6::real], decomposition_type = NONE\<rparr> 2 0
       = Inl AssertionFailure"
  using C5_element_access
    [of "\<lparr>mat_m = 2, mat_n = 3, mat_val = [1, 2, 3, 4, 5, 6::real], decomposition_type = NONE\<rparr>" 1 2]
    C5_element_access
    [of "\<lparr>mat_m = 2, mat_n = 3, mat_val = [1, 2, 3, 4, 5, 6::real], decomposition_type = NONE\<rparr>" 2 0]
  by simp

text \<open>
  C8. \<^verbatim>\<open>A += B\<close> and \<^verbatim>\<open>A.add(1, B)\<close> have the same outcome for all \<open>A\<close> and
  \<open>B\<close>: the same matrix when they return one, the same failure otherwise. When the vector
  of \<open>A\<close> has fewer than \<open>2^32\<close> elements and that of \<open>B\<close> is at least as long (as
  with identical extents), that outcome is \<open>A\<close> with the elementwise sums. The scalar
  type needs \<open>1 * x = x\<close>.
\<close>

theorem C8_plus_assign_is_add_one:
  fixes A B :: "'a::{plus,monoid_mult} DenseMatrix"
  shows "plus_assign B A = add 1 B A
    \<and> (length (mat_val A) < 2 ^ 32 \<and> length (mat_val A) \<le> length (mat_val B) \<longrightarrow>
         plus_assign B A
           = Some (Inr (A\<lparr>mat_val := map2 (\<lambda>a b. a + b) (mat_val A) (mat_val B)\<rparr>)))"
  using add_returns [of A B 1]
  by (simp add: plus_assign_is_add)

theorem C8_plus_assign_is_add_one_witness:
  "length (mat_val \<lparr>mat_m = 1, mat_n = 2, mat_val = [1, 2::real], decomposition_type = LU\<rparr>) < 2 ^ 32
   \<and> plus_assign \<lparr>mat_m = 1, mat_n = 2, mat_val = [10, 20::real], decomposition_type = NONE\<rparr>
                   \<lparr>mat_m = 1, mat_n = 2, mat_val = [1, 2::real], decomposition_type = LU\<rparr>
       = Some (Inr \<lparr>mat_m = 1, mat_n = 2, mat_val = [11, 22::real], decomposition_type = LU\<rparr>)
   \<and> add 1 \<lparr>mat_m = 1, mat_n = 2, mat_val = [10, 20::real], decomposition_type = NONE\<rparr>
             \<lparr>mat_m = 1, mat_n = 2, mat_val = [1, 2::real], decomposition_type = LU\<rparr>
       = Some (Inr \<lparr>mat_m = 1, mat_n = 2, mat_val = [11, 22::real], decomposition_type = LU\<rparr>)"
proof -
  let ?A = "\<lparr>mat_m = 1, mat_n = 2, mat_val = [1, 2::real], decomposition_type = LU\<rparr>"
  let ?B = "\<lparr>mat_m = 1, mat_n = 2, mat_val = [10, 20::real], decomposition_type = NONE\<rparr>"
  have h: "length (mat_val ?A) < 2 ^ 32 \<and> length (mat_val ?A) \<le> length (mat_val ?B)"
    by simp
  with C8_plus_assign_is_add_one [of ?B ?A]
  have "plus_assign ?B ?A = add 1 ?B ?A"
    and "plus_assign ?B ?A
           = Some (Inr (?A\<lparr>mat_val := map2 (\<lambda>a b. a + b) (mat_val ?A) (mat_val ?B)\<rparr>))"
    by blast+
  then show ?thesis
    by simp
qed

text \<open>
  C9. The copy constructor copies row count, column count and all elements of the other
  matrix and leaves the tag as the storage held it (\<open>t0\<close>, whatever the tag of the other
  matrix is); the constructor from extents sets the tag to \<open>NONE\<close>.
\<close>

theorem C9_copy_constructor:
  "mat_m (DenseMatrix_copy_ctor t0 B) = mat_m B
   \<and> mat_n (DenseMatrix_copy_ctor t0 B) = mat_n B
   \<and> mat_val (DenseMatrix_copy_ctor t0 B) = mat_val B
   \<and> decomposition_type (DenseMatrix_copy_ctor t0 B) = t0
   \<and> decomposition_type (DenseMatrix_ctor m n :: 'a::zero DenseMatrix) = NONE"
  by (simp add: DenseMatrix_copy_ctor_def DenseMatrix_ctor_def resize_def zero_dm_def)

text \<open>
  C10. \<^verbatim>\<open>swap\<close> exchanges the whole state of the two matrices (extents, vector, tag),
  and two swaps in a row restore both.
\<close>

theorem C10_swap_involution:
  "swap (A, B) = (B, A) \<and> swap (swap (A, B)) = (A, B)"
  by (cases A; cases B) (simp add: swap_def)



subsection \<open>min, max and the norms\<close>

lemma for_loop_total:
  assumes "k \<le> b" and "\<And>i s. k \<le> i \<Longrightarrow> i < b \<Longrightarrow> body i s = Inr (g i s)"
  shows "for_loop k b body s = Inr (fold g (map word_of_nat [unat k..<unat b]) s)"
proof -
  have "for_each (map word_of_nat [unat k..<unat b]) body s =
        Inr (fold g (map word_of_nat [unat k..<unat b]) s)"
    by (rule for_each_total) (simp add: counter_values assms(2) del: set_map)
  then show ?thesis by (simp only: for_loop_for_each [OF assms(1)])
qed

lemma for_loop_cong:
  assumes "k \<le> b" and "\<And>i s. k \<le> i \<Longrightarrow> i < b \<Longrightarrow> f i s = g i s"
  shows "for_loop k b f s = for_loop k b g s"
proof -
  have "for_each (map word_of_nat [unat k..<unat b]) f s =
        for_each (map word_of_nat [unat k..<unat b]) g s"
    by (rule for_each_cong) (simp add: counter_values assms(2) del: set_map)
  then show ?thesis by (simp only: for_loop_for_each [OF assms(1)])
qed

lemma for_loop_total_0:
  assumes "\<And>i s. i < b \<Longrightarrow> body i s = Inr (g i s)"
  shows "for_loop 0 b body s = Inr (fold g (map word_of_nat [0..<unat b]) s)"
  using for_loop_total [of 0 b body g s] assms by simp

lemma counter_values_0: "set (map word_of_nat [0..<unat b]) = {i::uint. i < b}"
  using counter_values [of 0 b] by simp

lemma Min_insert_Min:
  fixes S R :: "'r::linorder set"
  assumes "finite S" "S \<noteq> {}" "finite R"
  shows "Min (insert (Min S) R) = Min (S \<union> R)"
proof (cases "R = {}")
  case True
  then show ?thesis by simp
next
  case False
  with assms show ?thesis by (simp add: Min.union)
qed

lemma fold_fold_min:
  fixes a :: "'r::linorder"
  shows "fold (\<lambda>i acc. fold (\<lambda>j acc. if acc < e i j then acc else e i j) js acc) is a
       = Min (insert a {e i j | i j. i \<in> set is \<and> j \<in> set js})"
proof (induction "is" arbitrary: a)
  case Nil
  then show ?case by simp
next
  case (Cons i "is")
  have inner: "fold (\<lambda>j acc. if acc < e i j then acc else e i j) js a
             = Min (insert a (set (map (e i) js)))"
    using fold_min_Min [of "map (e i) js" a] by (simp add: fold_map comp_def)
  let ?R = "{e i' j | i' j. i' \<in> set is \<and> j \<in> set js}"
  have fin: "finite ?R"
  proof -
    have "?R = (\<lambda>(i', j). e i' j) ` (set is \<times> set js)" by auto
    then show ?thesis by simp
  qed
  have split: "{e i' j | i' j. i' \<in> set (i # is) \<and> j \<in> set js} = e i ` set js \<union> ?R"
    by auto
  have "Min (insert (Min (insert a (e i ` set js))) ?R) = Min (insert a (e i ` set js) \<union> ?R)"
    using fin by (intro Min_insert_Min) simp_all
  then show ?case
    using Cons.IH [of "Min (insert a (set (map (e i) js)))"] inner split
    by (simp add: Un_insert_left)
qed

lemma Max_insert_Max:
  fixes S R :: "'r::linorder set"
  assumes "finite S" "S \<noteq> {}" "finite R"
  shows "Max (insert (Max S) R) = Max (S \<union> R)"
proof (cases "R = {}")
  case True
  then show ?thesis by simp
next
  case False
  with assms show ?thesis by (simp add: Max.union)
qed

lemma fold_fold_max:
  fixes a :: "'r::linorder"
  shows "fold (\<lambda>i acc. fold (\<lambda>j acc. if acc > e i j then acc else e i j) js acc) is a
       = Max (insert a {e i j | i j. i \<in> set is \<and> j \<in> set js})"
proof (induction "is" arbitrary: a)
  case Nil
  then show ?case by simp
next
  case (Cons i "is")
  have inner: "fold (\<lambda>j acc. if acc > e i j then acc else e i j) js a
             = Max (insert a (set (map (e i) js)))"
    using fold_max_Max [of "map (e i) js" a] by (simp add: fold_map comp_def)
  let ?R = "{e i' j | i' j. i' \<in> set is \<and> j \<in> set js}"
  have fin: "finite ?R"
  proof -
    have "?R = (\<lambda>(i', j). e i' j) ` (set is \<times> set js)" by auto
    then show ?thesis by simp
  qed
  have split: "{e i' j | i' j. i' \<in> set (i # is) \<and> j \<in> set js} = e i ` set js \<union> ?R"
    by auto
  have "Max (insert (Max (insert a (e i ` set js))) ?R) = Max (insert a (e i ` set js) \<union> ?R)"
    using fin by (intro Max_insert_Max) simp_all
  then show ?case
    using Cons.IH [of "Max (insert a (set (map (e i) js)))"] inner split
    by (simp add: Un_insert_left)
qed

lemma entries_cover:
  fixes m n :: uint
  assumes len: "length v = unat m * unat n" and small: "length v < 2 ^ 32"
  shows "{v ! unat (i * n + j) | i j. i < m \<and> j < n} = set v"
proof (intro set_eqI iffI)
  fix x
  assume "x \<in> {v ! unat (i * n + j) | i j. i < m \<and> j < n}"
  then obtain i j where ij: "i < m" "j < n" "x = v ! unat (i * n + j)" by auto
  with offset_in_range [of i m j n] len show "x \<in> set v" by simp
next
  fix x
  assume "x \<in> set v"
  then obtain k where k: "k < length v" "x = v ! k" by (auto simp: in_set_conv_nth)
  from k(1) len have npos: "0 < unat n" by (cases "unat n = 0") simp_all
  let ?i = "word_of_nat (k div unat n) :: uint" and ?j = "word_of_nat (k mod unat n) :: uint"
  from k(1) len have "k div unat n < unat m"
    by (simp add: less_mult_imp_div_less)
  then have ui: "unat ?i = k div unat n" and i: "?i < m"
    by (simp_all add: le_unat_uoi [of _ m] word_less_nat_alt)
  from npos have "k mod unat n < unat n" by simp
  then have uj: "unat ?j = k mod unat n" and j: "?j < n"
    by (simp_all add: le_unat_uoi [of _ n] word_less_nat_alt)
  from small len have "unat m * unat n < 2 ^ 32" by simp
  with i j have "unat (?i * n + ?j) = unat ?i * unat n + unat ?j" by (rule offset_exact)
  with ui uj have "unat (?i * n + ?j) = k" by simp
  with k(2) have "x = v ! unat (?i * n + ?j)" by simp
  with i j show "x \<in> {v ! unat (i * n + j) | i j. i < m \<and> j < n}"
    by (intro CollectI exI [of _ ?i] exI [of _ ?j] conjI)
qed

lemma min_dm_returns:
  fixes genius_real :: "'a \<Rightarrow> 'r::linorder"
  assumes len: "length (mat_val A) = unat (mat_m A) * unat (mat_n A)"
    and small: "length (mat_val A) < 2 ^ 32"
    and m: "mat_m A \<noteq> 0" and n: "mat_n A \<noteq> 0"
  shows "min_dm genius_real A = Inr (Min (genius_real ` set (mat_val A)))"
proof -
  let ?e = "\<lambda>i j. genius_real (mat_val A ! unat (i * mat_n A + j))"
  let ?is = "map word_of_nat [0..<unat (mat_m A)] :: uint list"
  let ?js = "map word_of_nat [0..<unat (mat_n A)] :: uint list"
  let ?E = "{mat_val A ! unat (i * mat_n A + j) | i j. i < mat_m A \<and> j < mat_n A}"
  from m n have m0: "0 < mat_m A" and n0: "0 < mat_n A" by (simp_all add: word_neq_0_conv)
  have first: "op_paren A 0 0 = Inr (mat_val A ! unat (0 * mat_n A + (0::uint)))"
    using len m0 n0 by (rule op_paren_in_range)
  have inner: "for_loop 0 (mat_n A)
         (\<lambda>j my_min. case op_paren A i j of Inl e \<Rightarrow> Inl e
            | Inr y \<Rightarrow> (let current = genius_real y
                        in Inr (if my_min < current then my_min else current))) s
       = Inr (fold (\<lambda>j acc. if acc < ?e i j then acc else ?e i j) ?js s)"
    if "i < mat_m A" for i s
  proof (rule for_loop_total_0)
    fix j :: uint and s :: 'r
    assume "j < mat_n A"
    with len that have "op_paren A i j = Inr (mat_val A ! unat (i * mat_n A + j))"
      by (rule op_paren_in_range)
    then show "(case op_paren A i j of Inl e \<Rightarrow> Inl e
            | Inr y \<Rightarrow> (let current = genius_real y
                        in Inr (if s < current then s else current)))
          = Inr (if s < ?e i j then s else ?e i j)"
      by simp
  qed
  have outer: "for_loop 0 (mat_m A)
         (\<lambda>i. for_loop 0 (mat_n A)
            (\<lambda>j my_min. case op_paren A i j of Inl e \<Rightarrow> Inl e
               | Inr y \<Rightarrow> (let current = genius_real y
                           in Inr (if my_min < current then my_min else current)))) s
       = Inr (fold (\<lambda>i acc. fold (\<lambda>j acc. if acc < ?e i j then acc else ?e i j) ?js acc) ?is s)"
    for s
    by (rule for_loop_total_0) (simp add: inner)
  have "set ?is = {i. i < mat_m A}" "set ?js = {j. j < mat_n A}"
    by (simp_all only: counter_values_0)
  then have sets: "{?e i j | i j. i \<in> set ?is \<and> j \<in> set ?js} = genius_real ` ?E"
    by (auto simp del: set_map)
  have E: "?E = set (mat_val A)" using len small by (rule entries_cover)
  have "?e 0 0 \<in> genius_real ` ?E" using m0 n0 by blast
  then have "insert (?e 0 0) (genius_real ` ?E) = genius_real ` set (mat_val A)"
    using E by auto
  then show ?thesis
    using m n first by (simp add: min_dm_def outer fold_fold_min sets del: set_map)
qed
lemma max_dm_returns:
  fixes genius_real :: "'a \<Rightarrow> 'r::linorder"
  assumes len: "length (mat_val A) = unat (mat_m A) * unat (mat_n A)"
    and small: "length (mat_val A) < 2 ^ 32"
    and m: "mat_m A \<noteq> 0" and n: "mat_n A \<noteq> 0"
  shows "max_dm genius_real A = Inr (Max (genius_real ` set (mat_val A)))"
proof -
  let ?e = "\<lambda>i j. genius_real (mat_val A ! unat (i * mat_n A + j))"
  let ?is = "map word_of_nat [0..<unat (mat_m A)] :: uint list"
  let ?js = "map word_of_nat [0..<unat (mat_n A)] :: uint list"
  let ?E = "{mat_val A ! unat (i * mat_n A + j) | i j. i < mat_m A \<and> j < mat_n A}"
  from m n have m0: "0 < mat_m A" and n0: "0 < mat_n A" by (simp_all add: word_neq_0_conv)
  have first: "op_paren A 0 0 = Inr (mat_val A ! unat (0 * mat_n A + (0::uint)))"
    using len m0 n0 by (rule op_paren_in_range)
  have inner: "for_loop 0 (mat_n A)
         (\<lambda>j my_max. case op_paren A i j of Inl e \<Rightarrow> Inl e
            | Inr y \<Rightarrow> (let current = genius_real y
                        in Inr (if my_max > current then my_max else current))) s
       = Inr (fold (\<lambda>j acc. if acc > ?e i j then acc else ?e i j) ?js s)"
    if "i < mat_m A" for i s
  proof (rule for_loop_total_0)
    fix j :: uint and s :: 'r
    assume "j < mat_n A"
    with len that have "op_paren A i j = Inr (mat_val A ! unat (i * mat_n A + j))"
      by (rule op_paren_in_range)
    then show "(case op_paren A i j of Inl e \<Rightarrow> Inl e
            | Inr y \<Rightarrow> (let current = genius_real y
                        in Inr (if s > current then s else current)))
          = Inr (if s > ?e i j then s else ?e i j)"
      by simp
  qed
  have outer: "for_loop 0 (mat_m A)
         (\<lambda>i. for_loop 0 (mat_n A)
            (\<lambda>j my_max. case op_paren A i j of Inl e \<Rightarrow> Inl e
               | Inr y \<Rightarrow> (let current = genius_real y
                           in Inr (if my_max > current then my_max else current)))) s
       = Inr (fold (\<lambda>i acc. fold (\<lambda>j acc. if acc > ?e i j then acc else ?e i j) ?js acc) ?is s)"
    for s
    by (rule for_loop_total_0) (simp add: inner)
  have "set ?is = {i. i < mat_m A}" "set ?js = {j. j < mat_n A}"
    by (simp_all only: counter_values_0)
  then have sets: "{?e i j | i j. i \<in> set ?is \<and> j \<in> set ?js} = genius_real ` ?E"
    by (auto simp del: set_map)
  have E: "?E = set (mat_val A)" using len small by (rule entries_cover)
  have "?e 0 0 \<in> genius_real ` ?E" using m0 n0 by blast
  then have "insert (?e 0 0) (genius_real ` ?E) = genius_real ` set (mat_val A)"
    using E by auto
  then show ?thesis
    using m n first by (simp add: max_dm_def outer fold_fold_max sets del: set_map)
qed

lemma l1_norm_transpose_view:
  "l1_norm std_abs A = linfty_norm_on std_abs (transpose_dm A) (mat_n A) (mat_m A)"
proof -
  have "transpose_dm A = (\<lambda>i j. op_paren A j i)"
    by (intro ext) (simp add: transpose_dm_def)
  then show ?thesis
    by (simp add: l1_norm_def l1_norm_on_def linfty_norm_on_def)
qed

lemma linfty_norm_on_cong:
  assumes eq: "\<And>i j. i < m \<Longrightarrow> j < n \<Longrightarrow> el i j = el' i j"
  shows "linfty_norm_on std_abs el m n = linfty_norm_on std_abs el' m n"
proof (cases "m = 0 \<or> n = 0")
  case True
  then show ?thesis by (auto simp add: linfty_norm_on_def)
next
  case False
  then have m0: "0 < m" and one: "1 \<le> m"
    by (simp_all add: word_neq_0_conv word_le_nat_alt word_less_nat_alt) 
  have row: "for_loop 0 n (\<lambda>j rowsum. case el i j of Inl e \<Rightarrow> Inl e
                 | Inr y \<Rightarrow> Inr (rowsum + std_abs y)) s
           = for_loop 0 n (\<lambda>j rowsum. case el' i j of Inl e \<Rightarrow> Inl e
                 | Inr y \<Rightarrow> Inr (rowsum + std_abs y)) s"
    if "i < m" for i s
    using that by (intro for_loop_cong) (simp_all add: eq)
  have rows: "for_loop 1 m
         (\<lambda>i my_max. case for_loop 0 n (\<lambda>j rowsum. case el i j of Inl e \<Rightarrow> Inl e
                 | Inr y \<Rightarrow> Inr (rowsum + std_abs y)) 0 of
              Inl e \<Rightarrow> Inl e
            | Inr rowsum \<Rightarrow> Inr (if my_max > rowsum then my_max else rowsum)) s
       = for_loop 1 m
         (\<lambda>i my_max. case for_loop 0 n (\<lambda>j rowsum. case el' i j of Inl e \<Rightarrow> Inl e
                 | Inr y \<Rightarrow> Inr (rowsum + std_abs y)) 0 of
              Inl e \<Rightarrow> Inl e
            | Inr rowsum \<Rightarrow> Inr (if my_max > rowsum then my_max else rowsum)) s"
    for s
    using one by (rule for_loop_cong) (simp add: row)
  show ?thesis
    using False by (simp add: linfty_norm_on_def row [OF m0] rows cong: sum.case_cong)
qed

lemma op_paren_transposed:
  assumes len: "length (mat_val A) = unat (mat_m A) * unat (mat_n A)"
    and small: "length (mat_val A) < 2 ^ 32"
    and j: "j < mat_n A" and i: "i < mat_m A"
  shows "op_paren (transposed A) j i = transpose_dm A j i"
proof -
  let ?m = "unat (mat_m A)" and ?n = "unat (mat_n A)"
  from small len have prod: "?n * ?m < 2 ^ 32" by (simp add: mult.commute)
  from i j have ui: "unat i < ?m" and uj: "unat j < ?n" by (simp_all add: word_less_nat_alt)
  have lenT: "length (mat_val (transposed A)) = unat (mat_m (transposed A)) * unat (mat_n (transposed A))"
    by (simp add: transposed_def)
  have "op_paren (transposed A) j i
      = Inr (mat_val (transposed A) ! unat (j * mat_n (transposed A) + i))"
    using lenT by (rule op_paren_in_range) (simp_all add: transposed_def i j)
  moreover have off: "unat (j * mat_m A + i) = unat j * ?m + unat i"
    using j i prod by (rule offset_exact)
  moreover have "unat j * ?m + unat i < ?n * ?m"
    using offset_in_range [OF j i] off by simp
  moreover have "unat (i * mat_n A + j) = unat i * ?n + unat j"
    using i j prod by (intro offset_exact) (simp_all add: mult.commute)
  moreover have "op_paren A i j = Inr (mat_val A ! unat (i * mat_n A + j))"
    using len i j by (rule op_paren_in_range)
  ultimately show ?thesis
    using ui by (simp add: transposed_def transpose_dm_def)
qed

lemma l1_norm_transposed:
  assumes len: "length (mat_val A) = unat (mat_m A) * unat (mat_n A)"
    and small: "length (mat_val A) < 2 ^ 32"
  shows "l1_norm std_abs A = linfty_norm std_abs (transposed A)"
proof -
  have "linfty_norm std_abs (transposed A)
      = linfty_norm_on std_abs (op_paren (transposed A)) (mat_n A) (mat_m A)"
    by (simp add: linfty_norm_def transposed_def)
  also have "\<dots> = linfty_norm_on std_abs (transpose_dm A) (mat_n A) (mat_m A)"
    by (rule linfty_norm_on_cong) (rule op_paren_transposed [OF len small])
  finally show ?thesis by (simp add: l1_norm_transpose_view)
qed

lemma l1_norm_returns:
  assumes len: "length (mat_val A) = unat (mat_m A) * unat (mat_n A)"
    and m: "mat_m A \<noteq> 0" and n: "mat_n A \<noteq> 0"
  shows "\<exists>r. l1_norm std_abs A = Inr r"
proof -
  let ?col = "\<lambda>j. fold (\<lambda>i columnsum. columnsum + std_abs (mat_val A ! unat (i * mat_n A + j)))
                       (map word_of_nat [0..<unat (mat_m A)])"
  from n have n0: "0 < mat_n A" and one: "1 \<le> mat_n A"
    by (simp_all add: word_neq_0_conv word_le_nat_alt word_less_nat_alt)
  have column: "for_loop 0 (mat_m A)
         (\<lambda>i columnsum. case op_paren A i j of Inl e \<Rightarrow> Inl e
            | Inr y \<Rightarrow> Inr (columnsum + std_abs y)) s = Inr (?col j s)"
    if "j < mat_n A" for j s
  proof (rule for_loop_total_0)
    fix i :: uint and s :: 'b
    assume "i < mat_m A"
    with len have "op_paren A i j = Inr (mat_val A ! unat (i * mat_n A + j))"
      using that by (rule op_paren_in_range)
    then show "(case op_paren A i j of Inl e \<Rightarrow> Inl e | Inr y \<Rightarrow> Inr (s + std_abs y))
             = Inr (s + std_abs (mat_val A ! unat (i * mat_n A + j)))"
      by simp
  qed
  have "for_loop 1 (mat_n A)
         (\<lambda>j my_max. case for_loop 0 (mat_m A)
              (\<lambda>i columnsum. case op_paren A i j of Inl e \<Rightarrow> Inl e
                 | Inr y \<Rightarrow> Inr (columnsum + std_abs y)) 0 of
              Inl e \<Rightarrow> Inl e
            | Inr columnsum \<Rightarrow> Inr (if my_max > columnsum then my_max else columnsum)) s
      = Inr (fold (\<lambda>j my_max. if my_max > ?col j 0 then my_max else ?col j 0)
               (map word_of_nat [unat (1::uint)..<unat (mat_n A)]) s)"
    for s
    using one by (rule for_loop_total) (simp add: column)
  then show ?thesis
    using m n by (simp add: l1_norm_def l1_norm_on_def column [OF n0])
qed

lemma l1_norm_example:
  "l1_norm abs \<lparr>mat_m = 2, mat_n = 3, mat_val = [1, -2, 3, -4, 5, -6::real], decomposition_type = NONE\<rparr>
     = Inr (9::real)"
  by (simp add: l1_norm_def l1_norm_on_def for_loop.simps op_paren_def)

subsection \<open>The claims about min, max and the norms\<close>

text \<open>
  C6. \<^verbatim>\<open>l1_norm\<close> of a matrix is \<^verbatim>\<open>linfty_norm\<close> run on its transpose: on the
  transposed view (extents exchanged, elements read through \<^verbatim>\<open>transpose(i,j)\<close>) for
  every matrix, and on the transposed matrix itself when the vector holds m times n
  elements, fewer than \<open>2^32\<close>; on such a matrix with at least one row and one column
  \<^verbatim>\<open>l1_norm\<close> returns a value, so the equation is between two numbers.
\<close>

theorem C6_l1_norm_linfty_norm_transpose:
  "l1_norm std_abs A = linfty_norm_on std_abs (transpose_dm A) (mat_n A) (mat_m A)
   \<and> (length (mat_val A) = unat (mat_m A) * unat (mat_n A) \<and> length (mat_val A) < 2 ^ 32 \<longrightarrow>
        l1_norm std_abs A = linfty_norm std_abs (transposed A)
      \<and> (mat_m A \<noteq> 0 \<and> mat_n A \<noteq> 0 \<longrightarrow> (\<exists>r. l1_norm std_abs A = Inr r)))"
  using l1_norm_transpose_view [of std_abs A] l1_norm_transposed [of A std_abs]
    l1_norm_returns [of A std_abs]
  by blast


theorem C6_l1_norm_linfty_norm_transpose_witness:
  "length (mat_val \<lparr>mat_m = 2, mat_n = 3, mat_val = [1, -2, 3, -4, 5, -6::real],
                    decomposition_type = NONE\<rparr>) = unat (2::uint) * unat (3::uint)
   \<and> l1_norm abs \<lparr>mat_m = 2, mat_n = 3, mat_val = [1, -2, 3, -4, 5, -6::real],
                      decomposition_type = NONE\<rparr>
       = linfty_norm abs (transposed \<lparr>mat_m = 2, mat_n = 3, mat_val = [1, -2, 3, -4, 5, -6::real],
                                      decomposition_type = NONE\<rparr>)
   \<and> l1_norm abs \<lparr>mat_m = 2, mat_n = 3, mat_val = [1, -2, 3, -4, 5, -6::real],
                      decomposition_type = NONE\<rparr> = Inr (9::real)"
proof -
  let ?A = "\<lparr>mat_m = 2, mat_n = 3, mat_val = [1, -2, 3, -4, 5, -6::real],
            decomposition_type = NONE\<rparr>"
  have "length (mat_val ?A) = unat (mat_m ?A) * unat (mat_n ?A) \<and> length (mat_val ?A) < 2 ^ 32"
    by simp
  with C6_l1_norm_linfty_norm_transpose [of abs ?A]
  have "l1_norm abs ?A = linfty_norm abs (transposed ?A)"
    by blast
  with l1_norm_example show ?thesis
    by simp
qed

text \<open>
  C7. On a matrix with at least one row and one column whose vector holds its m times n
  elements (fewer than \<open>2^32\<close>), \<^verbatim>\<open>min()\<close> returns the least and \<^verbatim>\<open>max()\<close> the
  greatest \<^verbatim>\<open>genius_real\<close> value over all elements. With no row or no column both
  fail their assert.
\<close>

theorem C7_min_max:
  fixes genius_real :: "'a \<Rightarrow> 'r::linorder"
  shows "(mat_m A \<noteq> 0 \<and> mat_n A \<noteq> 0
          \<and> length (mat_val A) = unat (mat_m A) * unat (mat_n A) \<and> length (mat_val A) < 2 ^ 32 \<longrightarrow>
            min_dm genius_real A = Inr (Min (genius_real ` set (mat_val A)))
          \<and> max_dm genius_real A = Inr (Max (genius_real ` set (mat_val A))))
       \<and> (mat_m A = 0 \<or> mat_n A = 0 \<longrightarrow>
            min_dm genius_real A = Inl AssertionFailure
          \<and> max_dm genius_real A = Inl AssertionFailure)"
  using min_dm_returns [of A genius_real] max_dm_returns [of A genius_real]
  by (auto simp add: min_dm_def max_dm_def)

theorem C7_min_max_witness:
  "mat_m \<lparr>mat_m = 2, mat_n = 2, mat_val = [Complex 3 (-9), Complex (-2) 7, Complex 4 0, Complex 1 1],
          decomposition_type = NONE\<rparr> \<noteq> 0
   \<and> min_dm Re \<lparr>mat_m = 2, mat_n = 2, mat_val = [Complex 3 (-9), Complex (-2) 7, Complex 4 0, Complex 1 1],
          decomposition_type = NONE\<rparr> = Inr (- 2)
   \<and> max_dm Re \<lparr>mat_m = 2, mat_n = 2, mat_val = [Complex 3 (-9), Complex (-2) 7, Complex 4 0, Complex 1 1],
          decomposition_type = NONE\<rparr> = Inr 4
   \<and> min_dm Re \<lparr>mat_m = 0, mat_n = 2, mat_val = [], decomposition_type = NONE\<rparr> = Inl AssertionFailure"
  using C7_min_max [of "\<lparr>mat_m = 2, mat_n = 2, mat_val = [Complex 3 (-9), Complex (-2) 7, Complex 4 0, Complex 1 1],
          decomposition_type = NONE\<rparr>" Re]
    C7_min_max [of "\<lparr>mat_m = 0, mat_n = 2, mat_val = [], decomposition_type = NONE\<rparr>" Re]
  by simp



subsection \<open>LU solve\<close>

lemma lu_solve_no_pivot_example: "lu_solve [3, 5] False \<lparr>mat_m = 2, mat_n = 2, mat_val = [0, 1, 1, 0::real], decomposition_type = NONE\<rparr>
   = Inl SingularMatrixError"
  by (simp add: lu_solve_def lu_decompose_def lu_step_def ent_def upt_rec)

lemma lu_solve_pivot_example: "lu_solve [3, 5] True \<lparr>mat_m = 2, mat_n = 2, mat_val = [0, 1, 1, 0::real], decomposition_type = NONE\<rparr>
   = Inr (\<lparr>mat_m = 2, mat_n = 2, mat_val = [1, 0, 0, 1::real], decomposition_type = LU\<rparr>, [5, 3])"
  by (simp add: lu_solve_def lu_decompose_def lu_step_def ent_def pivot_row_def swap_rows_def
      put_ent_def eliminate_row_def lu_back_substitute_def upt_rec Let_def)

lemma lu_solve_pivot_scenario: "lu_solve [1, 1] True \<lparr>mat_m = 2, mat_n = 2, mat_val = [4, 3, 6, 3::real], decomposition_type = NONE\<rparr>
   = Inr (\<lparr>mat_m = 2, mat_n = 2, mat_val = [6, 3, 2 / 3, 1::real], decomposition_type = LU\<rparr>, [0, 1 / 3])"
  by (simp add: lu_solve_def lu_decompose_def lu_step_def ent_def pivot_row_def swap_rows_def
      put_ent_def eliminate_row_def lu_back_substitute_def upt_rec Let_def)

lemma lu_solve_no_pivot_scenario: "lu_solve [1, 1] False \<lparr>mat_m = 2, mat_n = 2, mat_val = [4, 3, 6, 3::real], decomposition_type = NONE\<rparr>
   = Inr (\<lparr>mat_m = 2, mat_n = 2, mat_val = [4, 3, 3 / 2, - 3 / 2::real], decomposition_type = LU\<rparr>, [0, 1 / 3])"
  by (simp add: lu_solve_def lu_decompose_def lu_step_def ent_def pivot_row_def swap_rows_def
      put_ent_def eliminate_row_def lu_back_substitute_def upt_rec Let_def)

lemma lu_steps_append:
  "lu_steps partial_pivot (ks @ ks') s =
     (case lu_steps partial_pivot ks s of
        Inl e \<Rightarrow> Inl e
      | Inr s' \<Rightarrow> lu_steps partial_pivot ks' s')"
  by (induction ks arbitrary: s) (simp_all split: sum.splits)

lemma lu_steps_zero_pivot:
  assumes "lu_steps False ks s = Inr (A1, piv1)" and "ent A1 k k = 0"
  shows "lu_steps False (ks @ k # ks') s = Inl SingularMatrixError"
  using assms by (simp add: lu_steps_append lu_step_def)

text \<open>
  C3. Without partial pivoting \<^verbatim>\<open>lu_solve\<close> fails with SingularMatrixError whenever
  an elimination step meets a zero pivot: if the steps before step \<open>k\<close> succeed and leave
  a matrix whose element (k,k) is \<open>0\<close>, the call on a square matrix fails with that error.
  For the matrix with rows (0,1) and (1,0) the call without pivoting fails with
  SingularMatrixError and the call with pivoting succeeds, with the solution of the system.
\<close>

theorem C3_lu_solve_zero_pivot:
  "(mat_m A = mat_n A \<and> length b = unat (mat_m A) \<and> decomposition_type A \<noteq> CHOLESKY
      \<and> [0..<unat (mat_m A)] = ks @ k # ks'
      \<and> lu_steps False ks (A, []) = Inr (A1, piv1) \<and> ent A1 k k = 0 \<longrightarrow>
        lu_solve b False A = Inl SingularMatrixError)
   \<and> lu_solve [3, 5] False
         \<lparr>mat_m = 2, mat_n = 2, mat_val = [0, 1, 1, 0::real], decomposition_type = NONE\<rparr>
       = Inl SingularMatrixError
   \<and> lu_solve [3, 5] True
         \<lparr>mat_m = 2, mat_n = 2, mat_val = [0, 1, 1, 0::real], decomposition_type = NONE\<rparr>
       = Inr (\<lparr>mat_m = 2, mat_n = 2, mat_val = [1, 0, 0, 1::real], decomposition_type = LU\<rparr>,
              [5, 3])"
proof (intro conjI impI)
  assume h: "mat_m A = mat_n A \<and> length b = unat (mat_m A) \<and> decomposition_type A \<noteq> CHOLESKY
      \<and> [0..<unat (mat_m A)] = ks @ k # ks'
      \<and> lu_steps False ks (A, []) = Inr (A1, piv1) \<and> ent A1 k k = 0"
  then have sq: "mat_m A = mat_n A" and len: "length b = unat (mat_m A)"
    and tag: "decomposition_type A \<noteq> CHOLESKY"
    and ks: "[0..<unat (mat_m A)] = ks @ k # ks'"
    and reach: "lu_steps False ks (A, []) = Inr (A1, piv1)" and zero: "ent A1 k k = 0"
    by blast+
  from reach zero have "lu_steps False (ks @ k # ks') (A, []) = Inl SingularMatrixError"
    by (rule lu_steps_zero_pivot)
  with ks have "lu_steps False [0..<unat (mat_m A)] (A, []) = Inl SingularMatrixError"
    by (simp only:)
  then have "lu_decompose False A = Inl SingularMatrixError"
    by (simp add: lu_decompose_def)
  with sq len tag show "lu_solve b False A = Inl SingularMatrixError"
    by (simp add: lu_solve_def)
qed (rule lu_solve_no_pivot_example, rule lu_solve_pivot_example)

theorem C3_lu_solve_zero_pivot_witness:
  "mat_m \<lparr>mat_m = 2, mat_n = 2, mat_val = [4, 3, 0, 0::real], decomposition_type = NONE\<rparr>
     = mat_n \<lparr>mat_m = 2, mat_n = 2, mat_val = [4, 3, 0, 0::real], decomposition_type = NONE\<rparr>
   \<and> [0..<unat (2::uint)] = [0] @ 1 # []
   \<and> lu_steps False [0]
        (\<lparr>mat_m = 2, mat_n = 2, mat_val = [4, 3, 0, 0::real], decomposition_type = NONE\<rparr>, [])
       = Inr (\<lparr>mat_m = 2, mat_n = 2, mat_val = [4, 3, 0, 0::real], decomposition_type = NONE\<rparr>, [0])
   \<and> lu_solve [1, 1] False
        \<lparr>mat_m = 2, mat_n = 2, mat_val = [4, 3, 0, 0::real], decomposition_type = NONE\<rparr>
       = Inl SingularMatrixError"
proof -
  let ?A = "\<lparr>mat_m = 2, mat_n = 2, mat_val = [4, 3, 0, 0::real], decomposition_type = NONE\<rparr>"
  have steps: "lu_steps False [0] (?A, []) = Inr (?A, [0])"
    by (simp add: lu_step_def ent_def eliminate_row_def put_ent_def upt_rec)
  have "mat_m ?A = mat_n ?A \<and> length [1, 1::real] = unat (mat_m ?A)
      \<and> decomposition_type ?A \<noteq> CHOLESKY
      \<and> [0..<unat (mat_m ?A)] = [0] @ 1 # []
      \<and> lu_steps False [0] (?A, []) = Inr (?A, [0]) \<and> ent ?A 1 1 = 0"
    using steps by (simp add: ent_def upt_rec)
  with C3_lu_solve_zero_pivot [of ?A "[1, 1]" "[0]" 1 "[]" ?A "[0]"]
  have "lu_solve [1, 1] False ?A = Inl SingularMatrixError"
    by blast
  with steps show ?thesis
    by (simp add: upt_rec)
qed


end
